theory Spec2Isabelle
  imports Main "HOL-Library.Sublist"
begin

section \<open>Text primitives of the validator\<close>

text \<open>
  SQL text is a Python \<open>str\<close>. The development covers 7-bit text: a \<open>char\<close> is one
  code point below 128, on which \<open>str.upper\<close> works character by character (a..z to
  A..Z, everything else unchanged), the white space of \<open>str.strip\<close>, \<open>str.split\<close>
  and of the regular expression class \<open>\s\<close> is TAB, LF, VT, FF, CR, FS, GS, RS, US and
  SPACE, and the word characters of \<open>\w\<close> and \<open>\b\<close> are letters, digits and the
  underscore. Characters from 128 on are left alone by \<open>upper_char\<close> and belong to
  neither class; Python's treatment of non-ASCII letters is outside this model.
\<close>

definition is_space :: "char \<Rightarrow> bool" where
  "is_space c = (let n = (of_char c :: nat) in (9 \<le> n \<and> n \<le> 13) \<or> (28 \<le> n \<and> n \<le> 32))"

definition is_word_char :: "char \<Rightarrow> bool" where
  "is_word_char c =
     (let n = (of_char c :: nat)
      in (48 \<le> n \<and> n \<le> 57) \<or> (65 \<le> n \<and> n \<le> 90) \<or> (97 \<le> n \<and> n \<le> 122) \<or> n = 95)"

definition upper_char :: "char \<Rightarrow> char" where
  "upper_char c =
     (let n = (of_char c :: nat) in if 97 \<le> n \<and> n \<le> 122 then char_of (n - 32) else c)"

text \<open>\<open>s.upper()\<close>\<close>

definition upper :: "string \<Rightarrow> string" where
  "upper s = map upper_char s"

text \<open>\<open>s.strip()\<close>: leading and trailing white space removed.\<close>

definition strip :: "string \<Rightarrow> string" where
  "strip s = rev (dropWhile is_space (rev (dropWhile is_space s)))"

text \<open>
  \<open>s.split()\<close>: the maximal runs of characters that are not white space, in order; no
  empty word is produced.
\<close>

function split_ws :: "string \<Rightarrow> string list" where
  "split_ws s =
     (case dropWhile is_space s of
        [] \<Rightarrow> []
      | c # cs \<Rightarrow>
          (c # takeWhile (\<lambda>x. \<not> is_space x) cs) # split_ws (dropWhile (\<lambda>x. \<not> is_space x) cs))"
  by pat_completeness auto

termination
proof (relation "measure length")
  show "wf (measure length)" by simp
next
  fix s :: string and c cs
  assume d: "dropWhile is_space s = c # cs"
  have "length (dropWhile (\<lambda>x. \<not> is_space x) cs) \<le> length cs"
    by (rule length_dropWhile_le)
  also have "length cs < length (dropWhile is_space s)"
    using d by simp
  also have "\<dots> \<le> length s"
    by (rule length_dropWhile_le)
  finally show "(dropWhile (\<lambda>x. \<not> is_space x) cs, s) \<in> measure length"
    by simp
qed

declare split_ws.simps [simp del]

text \<open>\<open>s.startswith(p)\<close>\<close>

fun starts_with :: "string \<Rightarrow> string \<Rightarrow> bool" where
  "starts_with s [] = True"
| "starts_with [] (p # ps) = False"
| "starts_with (c # cs) (p # ps) = (if c = p then starts_with cs ps else False)"

text \<open>\<open>needle in hay\<close> on two strings: \<open>needle\<close> occurs as a contiguous piece of \<open>hay\<close>.\<close>

fun contains :: "string \<Rightarrow> string \<Rightarrow> bool" where
  "contains needle [] = (needle = [])"
| "contains needle (c # cs) = (if starts_with (c # cs) needle then True else contains needle cs)"

subsection \<open>The regular expressions of the read-only check\<close>

text \<open>
  The eight patterns of \<open>_validate_readonly\<close> are sequences of four kinds of items: a
  literal text, the word boundary \<open>\b\<close>, \<open>\s+\<close> and \<open>\w+\<close>. \<open>re_match_here p prev s\<close>
  says that \<open>p\<close> matches a prefix of \<open>s\<close>, where \<open>prev\<close> is the character before
  \<open>s\<close> in the searched text (\<open>None\<close> at its start); both ways of continuing a
  repetition are tried, as the backtracking matcher does. \<open>re.search\<close> is used for its
  truth value only: whether the pattern matches at some position.
\<close>

datatype re_item = Lit string | WordBoundary | Spaces | WordChars

type_synonym regex = "re_item list"

definition is_word_opt :: "char option \<Rightarrow> bool" where
  "is_word_opt oc = (case oc of None \<Rightarrow> False | Some c \<Rightarrow> is_word_char c)"

definition next_char :: "string \<Rightarrow> char option" where
  "next_char s = (case s of [] \<Rightarrow> None | c # _ \<Rightarrow> Some c)"

fun re_match_here :: "regex \<Rightarrow> char option \<Rightarrow> string \<Rightarrow> bool" where
  "re_match_here [] prev s = True"
| "re_match_here (WordBoundary # r) prev s =
     (if is_word_opt prev \<noteq> is_word_opt (next_char s) then re_match_here r prev s else False)"
| "re_match_here (Lit [] # r) prev s = re_match_here r prev s"
| "re_match_here (Lit (c # l) # r) prev [] = False"
| "re_match_here (Lit (c # l) # r) prev (d # s) =
     (if c = d then re_match_here (Lit l # r) (Some d) s else False)"
| "re_match_here (Spaces # r) prev [] = False"
| "re_match_here (Spaces # r) prev (d # s) =
     (if is_space d
      then (if re_match_here (Spaces # r) (Some d) s then True else re_match_here r (Some d) s)
      else False)"
| "re_match_here (WordChars # r) prev [] = False"
| "re_match_here (WordChars # r) prev (d # s) =
     (if is_word_char d
      then (if re_match_here (WordChars # r) (Some d) s then True else re_match_here r (Some d) s)
      else False)"

fun re_search_from :: "regex \<Rightarrow> char option \<Rightarrow> string \<Rightarrow> bool" where
  "re_search_from p prev [] = re_match_here p prev []"
| "re_search_from p prev (c # cs) =
     (if re_match_here p prev (c # cs) then True else re_search_from p (Some c) cs)"

text \<open>\<open>re.search(pattern, text)\<close> as a truth value.\<close>

definition re_search :: "regex \<Rightarrow> string \<Rightarrow> bool" where
  "re_search p s = re_search_from p None s"

section \<open>config.py: the security mode and the configuration\<close>

datatype SecurityMode = READONLY | LIMITED_WRITE | FULL_ACCESS

record OracleConfig =
  security_mode :: SecurityMode
  allowed_schemas :: "string list"
  max_result_rows :: int

definition is_readonly_mode :: "OracleConfig \<Rightarrow> bool" where
  "is_readonly_mode cfg = (security_mode cfg = READONLY)"

definition is_all_schemas_allowed :: "OracleConfig \<Rightarrow> bool" where
  "is_all_schemas_allowed cfg = (''*'' \<in> set (allowed_schemas cfg))"

definition is_auto_discover_schemas :: "OracleConfig \<Rightarrow> bool" where
  "is_auto_discover_schemas cfg = (''auto'' \<in> set (allowed_schemas cfg))"

section \<open>database.py: SQLValidator\<close>

definition READONLY_OPERATIONS :: "string list" where
  "READONLY_OPERATIONS = [''SELECT'', ''WITH'', ''DESC'', ''DESCRIBE'', ''EXPLAIN'']"

definition WRITE_OPERATIONS :: "string list" where
  "WRITE_OPERATIONS = [''INSERT'', ''UPDATE'', ''MERGE'']"

definition DANGEROUS_OPERATIONS :: "string list" where
  "DANGEROUS_OPERATIONS =
     [''DELETE'', ''DROP'', ''CREATE'', ''ALTER'', ''TRUNCATE'', ''GRANT'', ''REVOKE'', ''PURGE'']"

definition extract_first_keyword :: "string \<Rightarrow> string" where
  "extract_first_keyword sql_upper = (case split_ws sql_upper of [] \<Rightarrow> [] | w # _ \<Rightarrow> w)"

definition dangerous_patterns :: "regex list" where
  "dangerous_patterns =
     [[WordBoundary, Lit ''DROP'', Spaces, Lit ''TABLE'', WordBoundary],
      [WordBoundary, Lit ''TRUNCATE'', Spaces, Lit ''TABLE'', WordBoundary],
      [WordBoundary, Lit ''DELETE'', Spaces, Lit ''FROM'', WordBoundary],
      [WordBoundary, Lit ''INSERT'', Spaces, Lit ''INTO'', WordBoundary],
      [WordBoundary, Lit ''UPDATE'', Spaces, WordChars, Spaces, Lit ''SET'', WordBoundary],
      [WordBoundary, Lit ''CREATE'', Spaces, Lit ''TABLE'', WordBoundary],
      [WordBoundary, Lit ''ALTER'', Spaces, Lit ''TABLE'', WordBoundary],
      [WordBoundary, Lit ''MERGE'', Spaces, Lit ''INTO'', WordBoundary]]"

text \<open>
  The two \<open>for\<close> loops of the validator return \<open>False\<close> at the first hit and fall
  through otherwise: \<open>any_hit P xs\<close> is whether some element is a hit.
\<close>

fun any_hit :: "('a \<Rightarrow> bool) \<Rightarrow> 'a list \<Rightarrow> bool" where
  "any_hit P [] = False"
| "any_hit P (x # xs) = (if P x then True else any_hit P xs)"

definition validate_readonly :: "string \<Rightarrow> string \<Rightarrow> bool" where
  "validate_readonly first_keyword sql_upper =
     (if first_keyword \<notin> set READONLY_OPERATIONS then False
      else if first_keyword = ''SELECT''
      then (if any_hit (\<lambda>pattern. re_search pattern sql_upper) dangerous_patterns
            then False else True)
      else (if any_hit (\<lambda>forbidden. contains forbidden sql_upper)
                 (WRITE_OPERATIONS @ DANGEROUS_OPERATIONS)
            then False else True))"

definition validate_limited_write :: "string \<Rightarrow> string \<Rightarrow> bool" where
  "validate_limited_write first_keyword sql_upper =
     (if first_keyword \<notin> set (READONLY_OPERATIONS @ WRITE_OPERATIONS) then False
      else if any_hit (\<lambda>dangerous. contains dangerous sql_upper) DANGEROUS_OPERATIONS
      then False else True)"

definition validate_sql :: "string \<Rightarrow> SecurityMode \<Rightarrow> bool" where
  "validate_sql sql mode =
     (let sql_upper = strip (upper sql);
          first_keyword = extract_first_keyword sql_upper
      in case mode of
           READONLY \<Rightarrow> validate_readonly first_keyword sql_upper
         | LIMITED_WRITE \<Rightarrow> validate_limited_write first_keyword sql_upper
         | FULL_ACCESS \<Rightarrow> True)"

text \<open>
  \<open>get_error_message\<close> builds a text from the mode and the first keyword; the texts
  are kept apart by constructor, with the keyword they carry.
\<close>

datatype message =
    ReadonlyWriteForbidden string
  | ReadonlyDangerousForbidden string
  | ReadonlyUnsupported string
  | LimitedDangerousForbidden string
  | LimitedUnsupported string
  | ForbiddenByPolicy

definition get_error_message :: "string \<Rightarrow> SecurityMode \<Rightarrow> message" where
  "get_error_message sql mode =
     (let sql_upper = strip (upper sql);
          first_keyword = extract_first_keyword sql_upper
      in case mode of
           READONLY \<Rightarrow>
             (if first_keyword \<in> set WRITE_OPERATIONS then ReadonlyWriteForbidden first_keyword
              else if first_keyword \<in> set DANGEROUS_OPERATIONS
              then ReadonlyDangerousForbidden first_keyword
              else ReadonlyUnsupported first_keyword)
         | LIMITED_WRITE \<Rightarrow>
             (if first_keyword \<in> set DANGEROUS_OPERATIONS
              then LimitedDangerousForbidden first_keyword
              else LimitedUnsupported first_keyword)
         | FULL_ACCESS \<Rightarrow> ForbiddenByPolicy)"

section \<open>database.py: OracleDatabase\<close>

subsection \<open>The driver as the pipeline sees it\<close>

text \<open>
  The exceptions that can leave the pipeline: the \<open>ValueError\<close> of \<open>execute_query\<close>
  (with the text of \<open>get_error_message\<close>), the \<open>ValueError\<close> of
  \<open>execute_safe_query\<close>, a \<open>cx_Oracle.Error\<close> raised by a driver call, the
  \<open>TypeError\<close> of iterating a \<open>description\<close> that is \<open>None\<close>, and the \<open>IndexError\<close>
  of \<open>row[i]\<close> on a row shorter than the column list.
\<close>

datatype py_exception =
    PolicyViolation message
  | SystemQueryNotReadonly
  | DriverError string
  | TypeError
  | IndexError

text \<open>
  A value of a fetched row. A LOB carries what its \<open>read()\<close> does (the content, or the
  driver error it raises); a datetime-like value carries the text its \<open>isoformat()\<close>
  returns.
\<close>

datatype db_value =
    VNone
  | VNum int
  | VStr string
  | VLob "string + string"
  | VDateTime string

record cursor =
  description :: "string list option"
  fetchall :: "string + db_value list list"
  rowcount :: int

text \<open>
  The database behind \<open>cx_Oracle\<close>: whether \<open>connect\<close> raises, what
  \<open>cursor.execute\<close> does with a statement and its parameters (a driver error or the
  cursor's state after it), and whether \<open>conn.commit\<close> raises.
\<close>

record database =
  connect :: "string option"
  execute :: "string \<Rightarrow> db_value list \<Rightarrow> string + cursor"
  commit :: "string option"

text \<open>The driver calls of one request, in the order they are made.\<close>

datatype event =
    Connect
  | Execute string "db_value list"
  | Fetchall
  | Commit
  | CursorClose
  | ConnClose

text \<open>A result record is a Python \<open>dict\<close>: keys in insertion order, one entry per key.\<close>

type_synonym result_row = "(string \<times> db_value) list"

type_synonym outcome = "event list \<times> (py_exception + result_row list)"

fun dict_set :: "result_row \<Rightarrow> string \<Rightarrow> db_value \<Rightarrow> result_row" where
  "dict_set [] k v = [(k, v)]"
| "dict_set ((k', v') # d) k v = (if k' = k then (k, v) # d else (k', v') # dict_set d k v)"

text \<open>
  \<open>results[:n]\<close>: the first \<open>n\<close> elements; a negative \<open>n\<close> counts from the end.
\<close>

definition py_slice_to :: "'a list \<Rightarrow> int \<Rightarrow> 'a list" where
  "py_slice_to xs n = (if 0 \<le> n then take (nat n) xs else take (nat (int (length xs) + n)) xs)"

subsection \<open>execute_query\<close>

definition normalize_value :: "db_value \<Rightarrow> py_exception + db_value" where
  "normalize_value v =
     (case v of
        VLob r \<Rightarrow> (case r of Inl m \<Rightarrow> Inl (DriverError m) | Inr content \<Rightarrow> Inr (VStr content))
      | VDateTime iso_text \<Rightarrow> Inr (VStr iso_text)
      | _ \<Rightarrow> Inr v)"

text \<open>
  What \<open>normalize_value\<close> makes of a value when it raises nothing: the content of a
  LOB, the text of a datetime, the value itself otherwise.
\<close>

definition normalized_value :: "db_value \<Rightarrow> db_value" where
  "normalized_value v = (case normalize_value v of Inr v' \<Rightarrow> v' | Inl e \<Rightarrow> v)"

text \<open>
  The inner loop over \<open>enumerate(columns)\<close>: the i-th column takes \<open>row[i]\<close>, so the
  columns and the row are walked together, and a row that ends first raises.
\<close>

fun build_row :: "string list \<Rightarrow> db_value list \<Rightarrow> result_row \<Rightarrow> py_exception + result_row" where
  "build_row [] row row_dict = Inr row_dict"
| "build_row (col_name # columns) [] row_dict = Inl IndexError"
| "build_row (col_name # columns) (v # row) row_dict =
     (case normalize_value v of
        Inl e \<Rightarrow> Inl e
      | Inr v' \<Rightarrow> build_row columns row (dict_set row_dict col_name v'))"

fun build_rows :: "string list \<Rightarrow> db_value list list \<Rightarrow> py_exception + result_row list" where
  "build_rows columns [] = Inr []"
| "build_rows columns (row # rows) =
     (case build_row columns row [] of
        Inl e \<Rightarrow> Inl e
      | Inr row_dict \<Rightarrow>
          (case build_rows columns rows of
             Inl e \<Rightarrow> Inl e
           | Inr results \<Rightarrow> Inr (row_dict # results)))"

text \<open>The test of line 183: the stripped upper-case text starts with one of five words.\<close>

definition is_query :: "string \<Rightarrow> bool" where
  "is_query sql =
     any_hit (starts_with (strip (upper sql)))
       [''SELECT'', ''WITH'', ''DESC'', ''DESCRIBE'', ''EXPLAIN'']"

definition fetch_and_normalize :: "OracleConfig \<Rightarrow> cursor \<Rightarrow> outcome" where
  "fetch_and_normalize cfg cur =
     (case description cur of
        None \<Rightarrow> ([], Inl TypeError)
      | Some columns \<Rightarrow>
          (case fetchall cur of
             Inl m \<Rightarrow> ([Fetchall], Inl (DriverError m))
           | Inr rows \<Rightarrow>
               (case build_rows columns rows of
                  Inl e \<Rightarrow> ([Fetchall], Inl e)
                | Inr results \<Rightarrow>
                    ([Fetchall],
                     Inr (if int (length results) > max_result_rows cfg
                          then py_slice_to results (max_result_rows cfg)
                          else results)))))"

definition commit_and_count :: "database \<Rightarrow> cursor \<Rightarrow> outcome" where
  "commit_and_count db cur =
     (case commit db of
        Some m \<Rightarrow> ([Commit], Inl (DriverError m))
      | None \<Rightarrow>
          ([Commit], Inr [[(''affected_rows'', VNum (rowcount cur)), (''status'', VStr ''success'')]]))"

text \<open>\<open>params or []\<close>\<close>

definition params_or_empty :: "db_value list option \<Rightarrow> db_value list" where
  "params_or_empty params = (case params of None \<Rightarrow> [] | Some ps \<Rightarrow> ps)"

text \<open>The body of the \<open>with\<close> block of \<open>execute_query\<close>; the cursor is closed on every path.\<close>

definition run_statement :: "OracleConfig \<Rightarrow> database \<Rightarrow> string \<Rightarrow> db_value list option \<Rightarrow> outcome" where
  "run_statement cfg db sql params =
     (case execute db sql (params_or_empty params) of
        Inl m \<Rightarrow> ([Execute sql (params_or_empty params), CursorClose], Inl (DriverError m))
      | Inr cur \<Rightarrow>
          (let (t, r) = (if is_query sql then fetch_and_normalize cfg cur
                         else commit_and_count db cur)
           in ([Execute sql (params_or_empty params)] @ t @ [CursorClose], r)))"

definition alter_session :: string where
  "alter_session = ''ALTER SESSION SET QUERY_REWRITE_ENABLED = FALSE''"

text \<open>
  \<open>get_connection\<close> around a body: a failed \<open>connect\<close> leaves nothing to close; in
  read-only mode the session statement runs first on a cursor of its own; the connection
  is closed on every other path.
\<close>

definition get_connection :: "OracleConfig \<Rightarrow> database \<Rightarrow> outcome \<Rightarrow> outcome" where
  "get_connection cfg db body =
     (case connect db of
        Some m \<Rightarrow> ([Connect], Inl (DriverError m))
      | None \<Rightarrow>
          (if is_readonly_mode cfg
           then (case execute db alter_session [] of
                   Inl m \<Rightarrow> ([Connect, Execute alter_session [], ConnClose], Inl (DriverError m))
                 | Inr _ \<Rightarrow>
                     ([Connect, Execute alter_session [], CursorClose] @ fst body @ [ConnClose],
                      snd body))
           else ([Connect] @ fst body @ [ConnClose], snd body)))"

definition execute_query :: "OracleConfig \<Rightarrow> database \<Rightarrow> string \<Rightarrow> db_value list option \<Rightarrow> outcome" where
  "execute_query cfg db sql params =
     (if \<not> validate_sql sql (security_mode cfg)
      then ([], Inl (PolicyViolation (get_error_message sql (security_mode cfg))))
      else get_connection cfg db (run_statement cfg db sql params))"

subsection \<open>execute_safe_query and the schema check\<close>

definition execute_safe_query :: "OracleConfig \<Rightarrow> database \<Rightarrow> string \<Rightarrow> db_value list option \<Rightarrow> outcome" where
  "execute_safe_query cfg db sql params =
     (if \<not> validate_sql sql READONLY then ([], Inl SystemQueryNotReadonly)
      else execute_query cfg db sql params)"

definition test_sql :: string where
  "test_sql = ''\<newline>                SELECT DISTINCT OWNER \<newline>                FROM ALL_TABLES \<newline>                WHERE OWNER = :schema\<newline>                ''"

text \<open>
  \<open>_is_schema_allowed\<close>: the driver calls it makes and its answer. \<open>except Exception\<close>
  catches every exception of the probe.
\<close>

definition is_schema_allowed :: "OracleConfig \<Rightarrow> database \<Rightarrow> string \<Rightarrow> event list \<times> bool" where
  "is_schema_allowed cfg db schema =
     (if is_all_schemas_allowed cfg then ([], True)
      else if is_auto_discover_schemas cfg
      then (case execute_safe_query cfg db test_sql (Some [VStr (upper schema)]) of
              (t, Inr result) \<Rightarrow> (t, length result > 0)
            | (t, Inl e) \<Rightarrow> (t, False))
      else ([], upper schema \<in> set (map upper (allowed_schemas cfg))))"

section \<open>The specification's notions\<close>

text \<open>
  The specification speaks of a keyword that "appears as a token" of a text: one of the
  white-space-delimited words of the text is the keyword. It is stated here to be
  compared with the validator's containment test.
\<close>

definition has_keyword_token :: "string list \<Rightarrow> string \<Rightarrow> bool" where
  "has_keyword_token keywords text = any_hit (\<lambda>w. w \<in> set keywords) (split_ws text)"

text \<open>Whether a request was turned down by the policy, before any driver call.\<close>

definition rejected_by_policy :: "outcome \<Rightarrow> bool" where
  "rejected_by_policy out =
     (case snd out of
        Inl (PolicyViolation _) \<Rightarrow> True
      | Inl SystemQueryNotReadonly \<Rightarrow> True
      | _ \<Rightarrow> False)"

section \<open>Configurations and databases of the examples\<close>

definition example_config :: "SecurityMode \<Rightarrow> string list \<Rightarrow> int \<Rightarrow> OracleConfig" where
  "example_config mode schemas cap =
     \<lparr>security_mode = mode, allowed_schemas = schemas, max_result_rows = cap\<rparr>"

text \<open>A cursor over one column and five rows, and one over no row.\<close>

definition five_rows :: cursor where
  "five_rows =
     \<lparr>description = Some [''X''],
      fetchall = Inr [[VNum 1], [VNum 2], [VNum 3], [VNum 4], [VNum 5]],
      rowcount = 5\<rparr>"

definition no_rows :: cursor where
  "no_rows = \<lparr>description = Some [''OWNER''], fetchall = Inr [], rowcount = 0\<rparr>"

text \<open>
  A cursor over three columns with a LOB and a datetime in each of its two rows, and the
  cursor of a statement that produces no result set (\<open>description\<close> is \<open>None\<close>).
\<close>

definition mixed_rows :: cursor where
  "mixed_rows =
     \<lparr>description = Some [''ID'', ''DOC'', ''TS''],
      fetchall = Inr [[VNum 1, VLob (Inr ''report''), VDateTime ''2025-01-02T03:04:05''],
                      [VNum 2, VLob (Inr ''memo''), VDateTime ''2025-06-07T08:09:10'']],
      rowcount = 2\<rparr>"


text \<open>
  A database that accepts the connection, answers every statement with the given cursor
  and commits; and one that refuses the connection.
\<close>

definition answering_db :: "cursor \<Rightarrow> database" where
  "answering_db cur = \<lparr>connect = None, execute = (\<lambda>sql params. Inr cur), commit = None\<rparr>"

definition unreachable_db :: database where
  "unreachable_db =
     \<lparr>connect = Some ''ORA-12541'', execute = (\<lambda>sql params. Inl ''ORA-03114''), commit = None\<rparr>"

section \<open>Facts about the text primitives\<close>

lemma of_char_upper_char:
  "(of_char (upper_char c) :: nat) =
     (if 97 \<le> (of_char c :: nat) \<and> (of_char c :: nat) \<le> 122 then of_char c - 32 else of_char c)"
  by (auto simp add: upper_char_def Let_def)

lemma is_space_upper_char [simp]: "is_space (upper_char c) = is_space c"
  unfolding is_space_def Let_def of_char_upper_char by auto

lemma dropWhile_all: "\<forall>c\<in>set s. P c \<Longrightarrow> dropWhile P s = []"
  by (induction s) auto

lemma strip_all_space:
  assumes "\<forall>c\<in>set s. is_space c"
  shows "strip (upper s) = []"
proof -
  have "\<forall>c\<in>set (upper s). is_space c" using assms by (simp add: upper_def)
  then have d: "dropWhile is_space (upper s) = []" by (rule dropWhile_all)
  show ?thesis unfolding strip_def d by simp
qed

lemma split_ws_Nil: "split_ws [] = []"
  by (simp add: split_ws.simps)

lemma empty_keyword_in_no_set:
  "[] \<notin> set READONLY_OPERATIONS" "[] \<notin> set WRITE_OPERATIONS" "[] \<notin> set DANGEROUS_OPERATIONS"
  by (simp_all add: READONLY_OPERATIONS_def WRITE_OPERATIONS_def DANGEROUS_OPERATIONS_def)

lemma any_hit_iff: "any_hit P xs \<longleftrightarrow> (\<exists>x\<in>set xs. P x)"
  by (induction xs) auto

lemma starts_with_prefix: "starts_with s p \<longleftrightarrow> prefix p s"
  by (induction s p rule: starts_with.induct) auto

lemma contains_sublist: "contains needle hay \<longleftrightarrow> sublist needle hay"
  by (induction hay) (auto simp: starts_with_prefix sublist_Cons_right)

lemma sublist_dropWhile_space:
  assumes "\<forall>c\<in>set d. \<not> is_space c" and "d \<noteq> []"
  shows "sublist d (dropWhile is_space s) \<longleftrightarrow> sublist d s"
proof (induction s)
  case Nil
  show ?case by simp
next
  case (Cons c s)
  show ?case
  proof (cases "is_space c")
    case True
    have "\<not> prefix d (c # s)"
    proof
      assume "prefix d (c # s)"
      with assms(2) have "c \<in> set d" by (cases d) auto
      with assms(1) True show False by blast
    qed
    with True Cons show ?thesis by (simp add: sublist_Cons_right)
  next
    case False
    then show ?thesis by simp
  qed
qed

lemma sublist_strip:
  assumes "\<forall>c\<in>set d. \<not> is_space c" and "d \<noteq> []"
  shows "sublist d (strip s) \<longleftrightarrow> sublist d s"
proof -
  have r: "\<forall>c\<in>set (rev d). \<not> is_space c" "rev d \<noteq> []" using assms by auto
  have "sublist d (strip s) \<longleftrightarrow> sublist (rev d) (dropWhile is_space (rev (dropWhile is_space s)))"
    unfolding strip_def by (simp add: sublist_rev_right)
  also have "\<dots> \<longleftrightarrow> sublist (rev d) (rev (dropWhile is_space s))"
    using r by (rule sublist_dropWhile_space)
  also have "\<dots> \<longleftrightarrow> sublist d (dropWhile is_space s)" by simp
  also have "\<dots> \<longleftrightarrow> sublist d s" using assms by (rule sublist_dropWhile_space)
  finally show ?thesis .
qed

section \<open>The validator\<close>

lemma keyword_no_space:
  "\<forall>k\<in>set (WRITE_OPERATIONS @ DANGEROUS_OPERATIONS). (\<forall>c\<in>set k. \<not> is_space c) \<and> k \<noteq> []"
  by (simp add: WRITE_OPERATIONS_def DANGEROUS_OPERATIONS_def is_space_def)

lemma contains_keyword_strip:
  assumes "k \<in> set (WRITE_OPERATIONS @ DANGEROUS_OPERATIONS)"
  shows "contains k (strip s) \<longleftrightarrow> sublist k s"
proof -
  have ab: "(\<forall>c\<in>set k. \<not> is_space c) \<and> k \<noteq> []"
    using keyword_no_space assms by (rule bspec)
  show ?thesis
    unfolding contains_sublist
    by (rule sublist_strip [OF conjunct1 [OF ab] conjunct2 [OF ab]])
qed

lemma any_hit_contains_strip:
  assumes "set ks \<subseteq> set (WRITE_OPERATIONS @ DANGEROUS_OPERATIONS)"
  shows "any_hit (\<lambda>k. contains k (strip s)) ks \<longleftrightarrow> (\<exists>k\<in>set ks. sublist k s)"
  unfolding any_hit_iff
proof (rule bex_cong [OF refl])
  fix k assume "k \<in> set ks"
  with assms have "k \<in> set (WRITE_OPERATIONS @ DANGEROUS_OPERATIONS)" by (rule subsetD)
  then show "contains k (strip s) \<longleftrightarrow> sublist k s" by (rule contains_keyword_strip)
qed

lemma validate_limited_write_iff:
  "validate_sql sql LIMITED_WRITE \<longleftrightarrow>
     extract_first_keyword (strip (upper sql)) \<in> set (READONLY_OPERATIONS @ WRITE_OPERATIONS)
     \<and> (\<forall>d\<in>set DANGEROUS_OPERATIONS. \<not> sublist d (upper sql))"
proof -
  have h: "any_hit (\<lambda>d. contains d (strip (upper sql))) DANGEROUS_OPERATIONS
        \<longleftrightarrow> (\<exists>d\<in>set DANGEROUS_OPERATIONS. sublist d (upper sql))"
    by (rule any_hit_contains_strip) simp
  show ?thesis
    unfolding validate_sql_def Let_def validate_limited_write_def h by simp
qed

lemma validate_readonly_iff:
  "validate_sql sql READONLY \<longleftrightarrow>
     extract_first_keyword (strip (upper sql)) \<in> set READONLY_OPERATIONS
     \<and> (if extract_first_keyword (strip (upper sql)) = ''SELECT''
        then \<not> (\<exists>p\<in>set dangerous_patterns. re_search p (strip (upper sql)))
        else \<not> (\<exists>k\<in>set (WRITE_OPERATIONS @ DANGEROUS_OPERATIONS). sublist k (upper sql)))"
proof -
  have h: "any_hit (\<lambda>d. contains d (strip (upper sql))) (WRITE_OPERATIONS @ DANGEROUS_OPERATIONS)
        \<longleftrightarrow> (\<exists>d\<in>set (WRITE_OPERATIONS @ DANGEROUS_OPERATIONS). sublist d (upper sql))"
    by (rule any_hit_contains_strip) simp
  have "validate_sql sql READONLY \<longleftrightarrow>
          validate_readonly (extract_first_keyword (strip (upper sql))) (strip (upper sql))"
    by (simp add: validate_sql_def Let_def)
  also have "\<dots> \<longleftrightarrow>
     extract_first_keyword (strip (upper sql)) \<in> set READONLY_OPERATIONS
     \<and> (if extract_first_keyword (strip (upper sql)) = ''SELECT''
        then \<not> any_hit (\<lambda>p. re_search p (strip (upper sql))) dangerous_patterns
        else \<not> (\<exists>k\<in>set (WRITE_OPERATIONS @ DANGEROUS_OPERATIONS). sublist k (upper sql)))"
    unfolding validate_readonly_def h by simp
  finally show ?thesis by (simp only: any_hit_iff)
qed

text \<open>
  C1, as stated, fails: \<open>SELECT CREATED FROM T\<close> starts with a read-only keyword and none
  of its words is a dangerous keyword, yet the limited-write validator turns it down,
  because \<open>CREATE\<close> occurs inside the word \<open>CREATED\<close>. The loop of
  \<open>_validate_limited_write\<close> tests \<open>dangerous in sql_upper\<close>, which is containment of
  text, not of a word.
\<close>

theorem limited_write_counterexample:
  "\<not> (validate_sql ''SELECT CREATED FROM T'' LIMITED_WRITE \<longleftrightarrow>
       (extract_first_keyword (strip (upper ''SELECT CREATED FROM T''))
          \<in> set (READONLY_OPERATIONS @ WRITE_OPERATIONS)
        \<and> \<not> has_keyword_token DANGEROUS_OPERATIONS (upper ''SELECT CREATED FROM T'')))"
  by code_simp

text \<open>
  C1 (amended). Under the limited-write mode \<open>validate_sql\<close> permits a statement if and
  only if the first white-space-delimited word of its upper-cased text is one of
  SELECT, WITH, DESC, DESCRIBE, EXPLAIN, INSERT, UPDATE, MERGE and no dangerous keyword
  (DELETE, DROP, CREATE, ALTER, TRUNCATE, GRANT, REVOKE, PURGE) occurs anywhere in the
  upper-cased text as a piece of text, inside a longer word or not. In particular
  \<open>INSERT INTO t VALUES (1)\<close> is permitted, \<open>DROP TABLE t\<close> is denied, and a MERGE
  statement is permitted exactly when no dangerous keyword occurs in its text.
\<close>

theorem limited_write_permits_iff:
  "(validate_sql sql LIMITED_WRITE \<longleftrightarrow>
      extract_first_keyword (strip (upper sql)) \<in> set (READONLY_OPERATIONS @ WRITE_OPERATIONS)
      \<and> (\<forall>d\<in>set DANGEROUS_OPERATIONS. \<not> sublist d (upper sql)))
   \<and> validate_sql ''INSERT INTO t VALUES (1)'' LIMITED_WRITE
   \<and> \<not> validate_sql ''DROP TABLE t'' LIMITED_WRITE
   \<and> (extract_first_keyword (strip (upper sql)) = ''MERGE'' \<longrightarrow>
        (validate_sql sql LIMITED_WRITE \<longleftrightarrow>
           (\<forall>d\<in>set DANGEROUS_OPERATIONS. \<not> sublist d (upper sql))))"
proof -
  have a: "validate_sql ''INSERT INTO t VALUES (1)'' LIMITED_WRITE" by code_simp
  have b: "\<not> validate_sql ''DROP TABLE t'' LIMITED_WRITE" by code_simp
  have m: "''MERGE'' \<in> set (READONLY_OPERATIONS @ WRITE_OPERATIONS)"
    by (simp add: WRITE_OPERATIONS_def)
  show ?thesis
    using a b m validate_limited_write_iff [of sql] by simp
qed

theorem limited_write_permits_iff_witness:
  "validate_sql ''merge into t using s on (t.a = s.a)'' LIMITED_WRITE
   \<and> \<not> validate_sql ''merge into t using s on (t.a = s.a); drop table u'' LIMITED_WRITE"
proof -
  have k1: "extract_first_keyword (strip (upper ''merge into t using s on (t.a = s.a)'')) = ''MERGE''"
    by code_simp
  have n1: "\<forall>d\<in>set DANGEROUS_OPERATIONS. \<not> sublist d (upper ''merge into t using s on (t.a = s.a)'')"
    by code_simp
  have k2: "extract_first_keyword (strip (upper ''merge into t using s on (t.a = s.a); drop table u'')) = ''MERGE''"
    by code_simp
  have n2: "\<not> (\<forall>d\<in>set DANGEROUS_OPERATIONS.
                \<not> sublist d (upper ''merge into t using s on (t.a = s.a); drop table u''))"
    by code_simp
  from limited_write_permits_iff [of "''merge into t using s on (t.a = s.a)''"] k1 n1
  have p1: "validate_sql ''merge into t using s on (t.a = s.a)'' LIMITED_WRITE" by blast
  from limited_write_permits_iff [of "''merge into t using s on (t.a = s.a); drop table u''"] k2 n2
  have p2: "\<not> validate_sql ''merge into t using s on (t.a = s.a); drop table u'' LIMITED_WRITE"
    by blast
  from p1 p2 show ?thesis by blast
qed

text \<open>
  C2. Under the read-only mode \<open>validate_sql\<close> permits a statement only if the first
  white-space-delimited word of its upper-cased text is one of SELECT, WITH, DESC,
  DESCRIBE, EXPLAIN; when that word is SELECT and one of the eight patterns matches
  somewhere in the upper-cased (and stripped) text, the statement is denied.
  \<open>SELECT 1 FROM DUAL\<close> is permitted, \<open>DELETE FROM t\<close> is denied, and
  \<open>SELECT * FROM t WHERE x IN (SELECT 1 FROM DUAL); DROP TABLE t\<close> is denied.
\<close>

theorem readonly_validation:
  "(validate_sql sql READONLY \<longrightarrow>
      extract_first_keyword (strip (upper sql)) \<in> set READONLY_OPERATIONS)
   \<and> (extract_first_keyword (strip (upper sql)) = ''SELECT''
        \<and> (\<exists>p\<in>set dangerous_patterns. re_search p (strip (upper sql)))
      \<longrightarrow> \<not> validate_sql sql READONLY)
   \<and> validate_sql ''SELECT 1 FROM DUAL'' READONLY
   \<and> \<not> validate_sql ''DELETE FROM t'' READONLY
   \<and> \<not> validate_sql ''SELECT * FROM t WHERE x IN (SELECT 1 FROM DUAL); DROP TABLE t'' READONLY"
proof -
  have a: "validate_sql ''SELECT 1 FROM DUAL'' READONLY" by code_simp
  have b: "\<not> validate_sql ''DELETE FROM t'' READONLY" by code_simp
  have c: "\<not> validate_sql ''SELECT * FROM t WHERE x IN (SELECT 1 FROM DUAL); DROP TABLE t'' READONLY"
    by code_simp
  show ?thesis
    using a b c validate_readonly_iff [of sql] by simp
qed

theorem readonly_validation_witness:
  "extract_first_keyword (strip (upper ''select a from t where b = 1'')) \<in> set READONLY_OPERATIONS
   \<and> \<not> validate_sql ''select a from t; update  t  set a = 1'' READONLY"
proof -
  have v: "validate_sql ''select a from t where b = 1'' READONLY" by code_simp
  have k: "extract_first_keyword (strip (upper ''select a from t; update  t  set a = 1'')) = ''SELECT''"
    by code_simp
  have m: "\<exists>p\<in>set dangerous_patterns.
             re_search p (strip (upper ''select a from t; update  t  set a = 1''))"
    by code_simp
  from readonly_validation [of "''select a from t where b = 1''"] v
  have p1: "extract_first_keyword (strip (upper ''select a from t where b = 1'')) \<in> set READONLY_OPERATIONS"
    by blast
  from readonly_validation [of "''select a from t; update  t  set a = 1''"] k m
  have p2: "\<not> validate_sql ''select a from t; update  t  set a = 1'' READONLY" by blast
  from p1 p2 show ?thesis by blast
qed

text \<open>
  C5, as stated, fails: \<open>DESC GRANTS\<close> has no write or dangerous keyword among its words,
  yet the read-only validator rejects it, because \<open>GRANT\<close> occurs inside \<open>GRANTS\<close>: the
  loop tests \<open>forbidden in sql_upper\<close>, containment of text.
\<close>

theorem readonly_other_keyword_counterexample:
  "\<not> ((\<not> validate_sql ''DESC GRANTS'' READONLY) \<longleftrightarrow>
       has_keyword_token (WRITE_OPERATIONS @ DANGEROUS_OPERATIONS) (upper ''DESC GRANTS''))"
  by code_simp

text \<open>
  C5 (amended). Under the read-only mode, a statement whose first word is WITH, DESC,
  DESCRIBE or EXPLAIN is rejected if and only if a write keyword (INSERT, UPDATE, MERGE)
  or a dangerous keyword (DELETE, DROP, CREATE, ALTER, TRUNCATE, GRANT, REVOKE, PURGE)
  occurs anywhere in the upper-cased text as a piece of text, inside a longer word or
  not; it is accepted otherwise.
\<close>

theorem readonly_other_keyword_rejects_iff:
  assumes "extract_first_keyword (strip (upper sql)) \<in> set [''WITH'', ''DESC'', ''DESCRIBE'', ''EXPLAIN'']"
  shows "(\<not> validate_sql sql READONLY) \<longleftrightarrow>
           (\<exists>k\<in>set (WRITE_OPERATIONS @ DANGEROUS_OPERATIONS). sublist k (upper sql))"
proof -
  have k: "extract_first_keyword (strip (upper sql)) \<in> set READONLY_OPERATIONS"
          "extract_first_keyword (strip (upper sql)) \<noteq> ''SELECT''"
    using assms by (auto simp: READONLY_OPERATIONS_def)
  show ?thesis
    using k validate_readonly_iff [of sql] by simp
qed

theorem readonly_other_keyword_rejects_iff_witness:
  "\<not> validate_sql ''DESC GRANTS'' READONLY
   \<and> validate_sql ''WITH x AS (SELECT 1 FROM DUAL) SELECT * FROM x'' READONLY"
proof -
  have k1: "extract_first_keyword (strip (upper ''DESC GRANTS''))
              \<in> set [''WITH'', ''DESC'', ''DESCRIBE'', ''EXPLAIN'']"
    by code_simp
  have s1: "\<exists>k\<in>set (WRITE_OPERATIONS @ DANGEROUS_OPERATIONS). sublist k (upper ''DESC GRANTS'')"
    by code_simp
  have k2: "extract_first_keyword (strip (upper ''WITH x AS (SELECT 1 FROM DUAL) SELECT * FROM x''))
              \<in> set [''WITH'', ''DESC'', ''DESCRIBE'', ''EXPLAIN'']"
    by code_simp
  have s2: "\<not> (\<exists>k\<in>set (WRITE_OPERATIONS @ DANGEROUS_OPERATIONS).
                sublist k (upper ''WITH x AS (SELECT 1 FROM DUAL) SELECT * FROM x''))"
    by code_simp
  from readonly_other_keyword_rejects_iff [OF k1] s1
  have p1: "\<not> validate_sql ''DESC GRANTS'' READONLY" by blast
  from readonly_other_keyword_rejects_iff [OF k2] s2
  have p2: "validate_sql ''WITH x AS (SELECT 1 FROM DUAL) SELECT * FROM x'' READONLY" by blast
  from p1 p2 show ?thesis by blast
qed


text \<open>
  C10. For the empty text and for every text made of white space only, the first keyword
  is the empty word, which is in none of the three keyword sets, and \<open>validate_sql\<close>
  returns \<open>False\<close> (it does not raise) in the read-only and in the limited-write mode.
\<close>

theorem blank_statement_denied:
  assumes "\<forall>c\<in>set sql. is_space c"
  shows "extract_first_keyword (strip (upper sql)) = []
       \<and> [] \<notin> set (READONLY_OPERATIONS @ WRITE_OPERATIONS @ DANGEROUS_OPERATIONS)
       \<and> \<not> validate_sql sql READONLY
       \<and> \<not> validate_sql sql LIMITED_WRITE"
proof -
  have s: "strip (upper sql) = []" using assms by (rule strip_all_space)
  have k: "extract_first_keyword (strip (upper sql)) = []"
    by (simp add: s extract_first_keyword_def split_ws_Nil)
  have m: "[] \<notin> set (READONLY_OPERATIONS @ WRITE_OPERATIONS @ DANGEROUS_OPERATIONS)"
    using empty_keyword_in_no_set by simp
  have r: "\<not> validate_sql sql READONLY"
    using m by (simp add: validate_sql_def Let_def k validate_readonly_def)
  have w: "\<not> validate_sql sql LIMITED_WRITE"
    using m by (simp add: validate_sql_def Let_def k validate_limited_write_def)
  from k m r w show ?thesis by blast
qed

theorem blank_statement_denied_witness:
  "extract_first_keyword (strip (upper [CHR 0x20, CHR 0x09, CHR 0x0A])) = []
   \<and> \<not> validate_sql [CHR 0x20, CHR 0x09, CHR 0x0A] READONLY
   \<and> \<not> validate_sql [CHR 0x20, CHR 0x09, CHR 0x0A] LIMITED_WRITE
   \<and> \<not> validate_sql [] READONLY \<and> \<not> validate_sql [] LIMITED_WRITE"
proof -
  have h: "\<forall>c\<in>set [CHR 0x20, CHR 0x09, CHR 0x0A]. is_space c"
    by (simp add: is_space_def)
  have e: "\<forall>c\<in>set ([]::string). is_space c" by simp
  from blank_statement_denied [OF h] blank_statement_denied [OF e] show ?thesis by blast
qed

section \<open>The execution pipeline\<close>

lemma normalize_value_error:
  "normalize_value v = Inl e \<Longrightarrow> \<exists>m. e = DriverError m"
  by (auto simp: normalize_value_def split: db_value.splits sum.splits)

lemma build_row_error:
  "build_row columns row d = Inl e \<Longrightarrow> e = IndexError \<or> (\<exists>m. e = DriverError m)"
  by (induction columns row d rule: build_row.induct)
     (auto split: sum.splits dest: normalize_value_error)

lemma build_rows_error:
  "build_rows columns rows = Inl e \<Longrightarrow> e = IndexError \<or> (\<exists>m. e = DriverError m)"
  by (induction rows) (auto split: sum.splits dest: build_row_error)

lemma fetch_and_normalize_error:
  "snd (fetch_and_normalize cfg cur) = Inl e \<Longrightarrow>
     e = TypeError \<or> e = IndexError \<or> (\<exists>m. e = DriverError m)"
  by (auto simp: fetch_and_normalize_def split: option.splits sum.splits dest: build_rows_error)

lemma commit_and_count_error:
  "snd (commit_and_count db cur) = Inl e \<Longrightarrow> \<exists>m. e = DriverError m"
  by (auto simp: commit_and_count_def split: option.splits)

lemma run_statement_error:
  assumes "snd (run_statement cfg db sql params) = Inl e"
  shows "e = TypeError \<or> e = IndexError \<or> (\<exists>m. e = DriverError m)"
proof (cases "execute db sql (params_or_empty params)")
  case (Inl m)
  with assms show ?thesis by (auto simp add: run_statement_def)
next
  case (Inr cur)
  show ?thesis
  proof (cases "is_query sql")
    case True
    with Inr assms have "snd (fetch_and_normalize cfg cur) = Inl e"
      by (simp add: run_statement_def split: prod.splits)
    then show ?thesis by (rule fetch_and_normalize_error)
  next
    case False
    with Inr assms have "snd (commit_and_count db cur) = Inl e"
      by (simp add: run_statement_def split: prod.splits)
    then show ?thesis using commit_and_count_error by blast
  qed
qed

lemma get_connection_error:
  assumes "snd (get_connection cfg db body) = Inl e"
  shows "(\<exists>m. e = DriverError m) \<or> snd body = Inl e"
  using assms by (auto simp: get_connection_def split: option.splits sum.splits if_splits)

lemma pipeline_not_rejected:
  "\<not> rejected_by_policy (get_connection cfg db (run_statement cfg db sql params))"
proof (cases "snd (get_connection cfg db (run_statement cfg db sql params))")
  case (Inl e)
  then have "(\<exists>m. e = DriverError m) \<or> snd (run_statement cfg db sql params) = Inl e"
    by (rule get_connection_error)
  then have "e = TypeError \<or> e = IndexError \<or> (\<exists>m. e = DriverError m)"
    using run_statement_error by blast
  with Inl show ?thesis by (auto simp: rejected_by_policy_def)
next
  case (Inr r)
  then show ?thesis by (simp add: rejected_by_policy_def)
qed

lemma execute_in_trace:
  assumes "connect db = None" and "\<forall>m. execute db alter_session [] \<noteq> Inl m"
  shows "Execute sql (params_or_empty params)
           \<in> set (fst (get_connection cfg db (run_statement cfg db sql params)))"
proof -
  have "Execute sql (params_or_empty params) \<in> set (fst (run_statement cfg db sql params))"
    by (auto simp: run_statement_def split: sum.splits prod.splits)
  then show ?thesis
    using assms by (auto simp: get_connection_def split: sum.splits)
qed

text \<open>
  C3, as stated, fails under the limited-write mode: \<open>SELECT CREATED FROM T\<close> passes the
  read-only validation, but \<open>execute_safe_query\<close> hands it to \<open>execute_query\<close>, which
  validates it again against the configured mode; the limited-write validator finds
  \<open>CREATE\<close> in the text and the statement is rejected before any driver call.
\<close>

theorem execute_safe_query_counterexample:
  "\<not> (\<not> rejected_by_policy
           (execute_safe_query (example_config LIMITED_WRITE [''*''] 1000) (answering_db five_rows)
              ''SELECT CREATED FROM T'' None)
       \<longleftrightarrow> validate_sql ''SELECT CREATED FROM T'' READONLY)
   \<and> execute_safe_query (example_config LIMITED_WRITE [''*''] 1000) (answering_db five_rows)
        ''SELECT CREATED FROM T'' None
      = ([], Inl (PolicyViolation (LimitedUnsupported ''SELECT'')))"
  by code_simp

text \<open>
  C3 (amended). \<open>execute_safe_query\<close> validates every statement against the read-only
  policy whatever the configured mode, and then against the configured mode as well: a
  statement is accepted (and the pipeline run on it) if and only if it passes both
  validations, and is rejected with an error, before any driver call, otherwise. Under
  the read-only and the full-access mode this is exactly the read-only validation; a
  statement that fails the read-only validation is rejected under every mode. An
  accepted statement reaches \<open>cursor.execute\<close> whenever the connection is established.
\<close>

theorem execute_safe_query_accepts_iff:
  "(\<not> rejected_by_policy (execute_safe_query cfg db sql params) \<longleftrightarrow>
      validate_sql sql READONLY \<and> validate_sql sql (security_mode cfg))
   \<and> (validate_sql sql READONLY \<and> validate_sql sql (security_mode cfg) \<longrightarrow>
        execute_safe_query cfg db sql params
          = get_connection cfg db (run_statement cfg db sql params))
   \<and> (rejected_by_policy (execute_safe_query cfg db sql params) \<longrightarrow>
        fst (execute_safe_query cfg db sql params) = [])
   \<and> (security_mode cfg \<noteq> LIMITED_WRITE \<longrightarrow>
        (\<not> rejected_by_policy (execute_safe_query cfg db sql params) \<longleftrightarrow>
           validate_sql sql READONLY))
   \<and> (validate_sql sql READONLY \<and> validate_sql sql (security_mode cfg)
        \<and> connect db = None \<and> (\<forall>m. execute db alter_session [] \<noteq> Inl m) \<longrightarrow>
        Execute sql (params_or_empty params) \<in> set (fst (execute_safe_query cfg db sql params)))"
proof -
  let ?run = "get_connection cfg db (run_statement cfg db sql params)"
  have acc: "validate_sql sql READONLY \<and> validate_sql sql (security_mode cfg) \<Longrightarrow>
             execute_safe_query cfg db sql params = ?run"
    by (simp add: execute_safe_query_def execute_query_def)
  have rej: "\<not> (validate_sql sql READONLY \<and> validate_sql sql (security_mode cfg)) \<Longrightarrow>
             rejected_by_policy (execute_safe_query cfg db sql params)
             \<and> fst (execute_safe_query cfg db sql params) = []"
    by (auto simp: execute_safe_query_def execute_query_def rejected_by_policy_def)
  have nr: "\<not> rejected_by_policy ?run" by (rule pipeline_not_rejected)
  have iff: "\<not> rejected_by_policy (execute_safe_query cfg db sql params) \<longleftrightarrow>
      validate_sql sql READONLY \<and> validate_sql sql (security_mode cfg)"
    using acc rej nr by metis
  have mode: "security_mode cfg \<noteq> LIMITED_WRITE \<Longrightarrow>
      (validate_sql sql READONLY \<and> validate_sql sql (security_mode cfg)) = validate_sql sql READONLY"
    by (cases "security_mode cfg") (auto simp: validate_sql_def)
  have ex: "validate_sql sql READONLY \<and> validate_sql sql (security_mode cfg)
        \<and> connect db = None \<and> (\<forall>m. execute db alter_session [] \<noteq> Inl m) \<Longrightarrow>
        Execute sql (params_or_empty params) \<in> set (fst (execute_safe_query cfg db sql params))"
    using acc execute_in_trace by simp
  show ?thesis
    using iff acc rej mode ex by blast
qed

theorem execute_safe_query_accepts_iff_witness:
  "\<not> rejected_by_policy
       (execute_safe_query (example_config LIMITED_WRITE [''*''] 1000) (answering_db five_rows)
          ''SELECT X FROM T'' None)
   \<and> Execute ''SELECT X FROM T'' []
        \<in> set (fst (execute_safe_query (example_config LIMITED_WRITE [''*''] 1000)
                      (answering_db five_rows) ''SELECT X FROM T'' None))
   \<and> rejected_by_policy
       (execute_safe_query (example_config FULL_ACCESS [''*''] 1000) (answering_db five_rows)
          ''UPDATE T SET X = 1'' None)
   \<and> fst (execute_safe_query (example_config FULL_ACCESS [''*''] 1000) (answering_db five_rows)
          ''UPDATE T SET X = 1'' None) = []"
proof -
  let ?lw = "example_config LIMITED_WRITE [''*''] 1000"
  let ?fa = "example_config FULL_ACCESS [''*''] 1000"
  let ?db = "answering_db five_rows"
  have v1: "validate_sql ''SELECT X FROM T'' READONLY" by code_simp
  have v2: "validate_sql ''SELECT X FROM T'' (security_mode ?lw)" by code_simp
  have c: "connect ?db = None" by (simp add: answering_db_def)
  have a: "\<forall>m. execute ?db alter_session [] \<noteq> Inl m" by (simp add: answering_db_def)
  have p: "params_or_empty None = []" by (simp add: params_or_empty_def)
  have n: "\<not> validate_sql ''UPDATE T SET X = 1'' READONLY" by code_simp
  have m: "security_mode ?fa \<noteq> LIMITED_WRITE" by (simp add: example_config_def)
  note t1 = execute_safe_query_accepts_iff [of ?lw ?db "''SELECT X FROM T''" None]
  note t2 = execute_safe_query_accepts_iff [of ?fa ?db "''UPDATE T SET X = 1''" None]
  have r1: "\<not> rejected_by_policy (execute_safe_query ?lw ?db ''SELECT X FROM T'' None)"
    using t1 v1 v2 by blast
  have r2: "Execute ''SELECT X FROM T'' [] \<in> set (fst (execute_safe_query ?lw ?db ''SELECT X FROM T'' None))"
    using t1 v1 v2 c a p by metis
  have r3: "rejected_by_policy (execute_safe_query ?fa ?db ''UPDATE T SET X = 1'' None)"
    using t2 n m by blast
  have r4: "fst (execute_safe_query ?fa ?db ''UPDATE T SET X = 1'' None) = []"
    using t2 r3 by blast
  from r1 r2 r3 r4 show ?thesis by blast
qed




subsection \<open>The result branch\<close>

lemma dropWhile_snoc_keeps:
  "\<not> P c \<Longrightarrow> \<exists>zs. dropWhile P (ys @ [c]) = zs @ [c]"
  by (induction ys) auto

lemma strip_head:
  "strip s = [] \<or> (\<exists>c cs. strip s = c # cs \<and> \<not> is_space c)"
proof (cases "dropWhile is_space s")
  case Nil
  have "strip s = []" unfolding strip_def Nil by simp
  then show ?thesis ..
next
  case (Cons c cs)
  have nc: "\<not> is_space c"
    using Cons [unfolded dropWhile_eq_Cons_conv] by (rule conjunct2)
  have "\<exists>zs. dropWhile is_space (rev cs @ [c]) = zs @ [c]"
    using nc by (rule dropWhile_snoc_keeps)
  then obtain zs where z: "dropWhile is_space (rev cs @ [c]) = zs @ [c]" ..
  have r: "rev (c # cs) = rev cs @ [c]" by simp
  have "strip s = rev (zs @ [c])" unfolding strip_def Cons r z ..
  then have "strip s = c # rev zs" by simp
  with nc show ?thesis by blast
qed

lemma first_keyword_prefix:
  "prefix (extract_first_keyword (strip s)) (strip s)"
proof -
  from strip_head [of s] show ?thesis
  proof
    assume "strip s = []"
    then show ?thesis by (simp add: extract_first_keyword_def split_ws_Nil)
  next
    assume "\<exists>c cs. strip s = c # cs \<and> \<not> is_space c"
    then obtain c cs where s: "strip s = c # cs" and nc: "\<not> is_space c" by blast
    have "split_ws (c # cs) =
            (c # takeWhile (\<lambda>x. \<not> is_space x) cs) # split_ws (dropWhile (\<lambda>x. \<not> is_space x) cs)"
      using nc by (subst split_ws.simps) simp
    then have "extract_first_keyword (strip s) = c # takeWhile (\<lambda>x. \<not> is_space x) cs"
      by (simp add: extract_first_keyword_def s)
    then show ?thesis by (simp add: s takeWhile_is_prefix)
  qed
qed

lemma is_query_iff:
  "is_query sql \<longleftrightarrow>
     (\<exists>k\<in>set [''SELECT'', ''WITH'', ''DESC'', ''DESCRIBE'', ''EXPLAIN'']. prefix k (strip (upper sql)))"
  unfolding is_query_def any_hit_iff starts_with_prefix ..

lemma prefix_hd: "prefix k t \<Longrightarrow> k \<noteq> [] \<Longrightarrow> hd t = hd k"
  by (cases k; cases t) auto

lemma is_query_first_keyword:
  assumes "extract_first_keyword (strip (upper sql)) \<in> set (READONLY_OPERATIONS @ WRITE_OPERATIONS)"
  shows "is_query sql \<longleftrightarrow> extract_first_keyword (strip (upper sql)) \<in> set READONLY_OPERATIONS"
proof
  let ?t = "strip (upper sql)"
  assume q: "is_query sql"
  show "extract_first_keyword ?t \<in> set READONLY_OPERATIONS"
  proof (rule ccontr)
    assume "extract_first_keyword ?t \<notin> set READONLY_OPERATIONS"
    with assms have w: "extract_first_keyword ?t \<in> set WRITE_OPERATIONS" by simp
    have p: "prefix (extract_first_keyword ?t) ?t"
      by (rule first_keyword_prefix)
    from w have "extract_first_keyword ?t \<noteq> []
                 \<and> hd (extract_first_keyword ?t) \<in> {CHR ''I'', CHR ''U'', CHR ''M''}"
      unfolding WRITE_OPERATIONS_def by auto
    with prefix_hd [OF p] have h1: "hd ?t \<in> {CHR ''I'', CHR ''U'', CHR ''M''}" by simp
    from q obtain k where k: "k \<in> set [''SELECT'', ''WITH'', ''DESC'', ''DESCRIBE'', ''EXPLAIN'']"
      and pk: "prefix k ?t"
      unfolding is_query_iff by blast
    from k have "k \<noteq> [] \<and> hd k \<in> {CHR ''S'', CHR ''W'', CHR ''D'', CHR ''E''}" by auto
    with prefix_hd [OF pk] have h2: "hd ?t \<in> {CHR ''S'', CHR ''W'', CHR ''D'', CHR ''E''}" by simp
    from h1 h2 show False by auto
  qed
next
  assume "extract_first_keyword (strip (upper sql)) \<in> set READONLY_OPERATIONS"
  then have "extract_first_keyword (strip (upper sql))
               \<in> set [''SELECT'', ''WITH'', ''DESC'', ''DESCRIBE'', ''EXPLAIN'']"
    by (simp add: READONLY_OPERATIONS_def)
  then show "is_query sql"
    unfolding is_query_iff using first_keyword_prefix by blast
qed

lemma permitted_keyword:
  assumes "validate_sql sql (security_mode cfg)" and "security_mode cfg \<noteq> FULL_ACCESS"
  shows "extract_first_keyword (strip (upper sql)) \<in> set (READONLY_OPERATIONS @ WRITE_OPERATIONS)"
proof (cases "security_mode cfg")
  case READONLY
  with assms(1) show ?thesis using validate_readonly_iff [of sql] by simp
next
  case LIMITED_WRITE
  with assms(1) show ?thesis using validate_limited_write_iff [of sql] by simp
next
  case FULL_ACCESS
  with assms(2) show ?thesis by simp
qed

lemma dict_set_fresh: "k \<notin> fst ` set d \<Longrightarrow> dict_set d k v = d @ [(k, v)]"
  by (induction d) auto

lemma normalize_value_readable:
  "(\<forall>m. v \<noteq> VLob (Inl m)) \<Longrightarrow> normalize_value v = Inr (normalized_value v)"
  by (cases v) (auto simp: normalized_value_def normalize_value_def split: sum.splits)

lemma normalized_value_simps:
  "normalized_value (VLob (Inr content)) = VStr content"
  "normalized_value (VDateTime iso_text) = VStr iso_text"
  "normalized_value VNone = VNone"
  "normalized_value (VNum n) = VNum n"
  "normalized_value (VStr t) = VStr t"
  by (simp_all add: normalized_value_def normalize_value_def)

lemma build_row_zip:
  assumes "distinct columns"
    and "set columns \<inter> fst ` set row_dict = {}"
    and "length columns \<le> length row"
    and "\<forall>v\<in>set (take (length columns) row). \<forall>m. v \<noteq> VLob (Inl m)"
  shows "build_row columns row row_dict
           = Inr (row_dict @ zip columns (map normalized_value row))"
  using assms
proof (induction columns row row_dict rule: build_row.induct)
  case (1 row row_dict)
  show ?case by simp
next
  case (2 col_name columns row_dict)
  then show ?case by simp
next
  case (3 col_name columns v row row_dict)
  from "3.prems"(4) have rv: "\<forall>m. v \<noteq> VLob (Inl m)" by simp
  then have nv: "normalize_value v = Inr (normalized_value v)"
    by (rule normalize_value_readable)
  from "3.prems"(2) have fresh: "col_name \<notin> fst ` set row_dict" by auto
  have ds: "dict_set row_dict col_name (normalized_value v)
              = row_dict @ [(col_name, normalized_value v)]"
    using fresh by (rule dict_set_fresh)
  have d: "distinct columns" using "3.prems"(1) by simp
  have i: "set columns \<inter> fst ` set (dict_set row_dict col_name (normalized_value v)) = {}"
    using "3.prems"(1,2) unfolding ds by auto
  have l: "length columns \<le> length row" using "3.prems"(3) by simp
  have r: "\<forall>v\<in>set (take (length columns) row). \<forall>m. v \<noteq> VLob (Inl m)"
    using "3.prems"(4) by simp
  have "build_row columns row (dict_set row_dict col_name (normalized_value v))
          = Inr (dict_set row_dict col_name (normalized_value v)
                 @ zip columns (map normalized_value row))"
    using nv d i l r by (rule "3.IH")
  then show ?case by (simp add: nv ds)
qed

lemma build_rows_map:
  assumes "distinct columns"
    and "\<forall>row\<in>set rows. length columns \<le> length row
            \<and> (\<forall>v\<in>set (take (length columns) row). \<forall>m. v \<noteq> VLob (Inl m))"
  shows "build_rows columns rows
           = Inr (map (\<lambda>row. zip columns (map normalized_value row)) rows)"
  using assms(2)
proof (induction rows)
  case Nil
  show ?case by simp
next
  case (Cons row rows)
  have e: "set columns \<inter> fst ` set ([] :: result_row) = {}" by simp
  have l: "length columns \<le> length row" using Cons.prems by simp
  have r: "\<forall>v\<in>set (take (length columns) row). \<forall>m. v \<noteq> VLob (Inl m)"
    using Cons.prems by simp
  have b: "build_row columns row [] = Inr ([] @ zip columns (map normalized_value row))"
    using assms(1) e l r by (rule build_row_zip)
  have t: "build_rows columns rows
             = Inr (map (\<lambda>row. zip columns (map normalized_value row)) rows)"
    using Cons.prems by (intro Cons.IH) simp
  show ?case by (simp add: b t)
qed

lemma run_statement_read:
  assumes "execute db sql (params_or_empty params) = Inr cur"
    and "is_query sql"
    and "description cur = Some columns"
    and "fetchall cur = Inr rows"
  shows "run_statement cfg db sql params
           = ([Execute sql (params_or_empty params), Fetchall, CursorClose],
              case build_rows columns rows of
                Inl e \<Rightarrow> Inl e
              | Inr results \<Rightarrow>
                  Inr (if int (length results) > max_result_rows cfg
                       then py_slice_to results (max_result_rows cfg)
                       else results))"
  using assms
  by (cases "build_rows columns rows") (simp_all add: run_statement_def fetch_and_normalize_def)

text \<open>
  C4, as stated, fails under the full-access mode, where every text is permitted. The
  test of \<open>execute_query\<close> is \<open>sql.upper().strip().startswith((...))\<close>, a test on the
  first characters of the text, not on its first word. \<open>SELECT*FROM DUAL\<close> has the first
  white-space-delimited word \<open>SELECT*FROM\<close>, and \<open>DESCRIBED\<close> is a word of its own;
  neither word is in the read-only set, yet both statements take the read branch (the
  rows are fetched, nothing is committed).
\<close>

theorem result_branch_counterexample:
  "validate_sql ''SELECT*FROM DUAL'' FULL_ACCESS
   \<and> extract_first_keyword (strip (upper ''SELECT*FROM DUAL'')) \<notin> set READONLY_OPERATIONS
   \<and> execute_query (example_config FULL_ACCESS [''*''] 1000) (answering_db no_rows)
        ''SELECT*FROM DUAL'' None
      = ([Connect, Execute ''SELECT*FROM DUAL'' [], Fetchall, CursorClose, ConnClose], Inr [])
   \<and> validate_sql ''DESCRIBED'' FULL_ACCESS
   \<and> extract_first_keyword (strip (upper ''DESCRIBED'')) \<notin> set READONLY_OPERATIONS
   \<and> execute_query (example_config FULL_ACCESS [''*''] 1000) (answering_db no_rows)
        ''DESCRIBED'' None
      = ([Connect, Execute ''DESCRIBED'' [], Fetchall, CursorClose, ConnClose], Inr [])"
  by code_simp

text \<open>
  C4 (amended). In the execution pipeline, for every permitted statement that the driver
  has executed, the read branch is taken exactly when the upper-cased, stripped text
  starts with one of SELECT, WITH, DESC, DESCRIBE, EXPLAIN, and nothing is committed on
  it. The read branch takes the column names of \<open>description\<close>, fetches all rows, and
  turns each row into a record, stopping at the first row that raises; the records are
  cut to the row cap. When the column names are distinct, every row has a value for
  every column and no LOB read fails, the record of a row pairs the columns, in column
  order, with the normalised values of the row: the content of a LOB, the ISO text of a
  datetime, every other value unchanged; with a cap N \<ge> 0 the outcome is the first N of
  these records. In every other case \<open>commit\<close> is called and, when it succeeds, the
  result is the single summary record with \<open>affected_rows\<close> (the driver's row count)
  and \<open>status = success\<close>. For a statement permitted under the read-only or the
  limited-write mode, the text starts with one of the five words exactly when its first
  word is in the read-only set.
\<close>

theorem result_branch_by_prefix:
  assumes "validate_sql sql (security_mode cfg)"
    and "execute db sql (params_or_empty params) = Inr cur"
  shows
  "execute_query cfg db sql params = get_connection cfg db (run_statement cfg db sql params)
   \<and> (is_query sql \<longleftrightarrow>
        (\<exists>k\<in>set [''SELECT'', ''WITH'', ''DESC'', ''DESCRIBE'', ''EXPLAIN''].
            prefix k (strip (upper sql))))
   \<and> (is_query sql \<longrightarrow>
        run_statement cfg db sql params
          = (Execute sql (params_or_empty params) # fst (fetch_and_normalize cfg cur) @ [CursorClose],
             snd (fetch_and_normalize cfg cur))
        \<and> Commit \<notin> set (fst (run_statement cfg db sql params)))
   \<and> (\<not> is_query sql \<longrightarrow>
        run_statement cfg db sql params
          = ([Execute sql (params_or_empty params), Commit, CursorClose],
             case commit db of
               None \<Rightarrow> Inr [[(''affected_rows'', VNum (rowcount cur)), (''status'', VStr ''success'')]]
             | Some m \<Rightarrow> Inl (DriverError m)))
   \<and> (security_mode cfg \<noteq> FULL_ACCESS \<longrightarrow>
        (is_query sql \<longleftrightarrow>
           extract_first_keyword (strip (upper sql)) \<in> set READONLY_OPERATIONS))
   \<and> (is_query sql \<and> description cur = Some columns \<and> fetchall cur = Inr rows \<longrightarrow>
        run_statement cfg db sql params
          = ([Execute sql (params_or_empty params), Fetchall, CursorClose],
             case build_rows columns rows of
               Inl e \<Rightarrow> Inl e
             | Inr results \<Rightarrow>
                 Inr (if int (length results) > max_result_rows cfg
                      then py_slice_to results (max_result_rows cfg)
                      else results)))
   \<and> (is_query sql \<and> description cur = Some columns \<and> fetchall cur = Inr rows
        \<and> distinct columns
        \<and> (\<forall>row\<in>set rows. length columns \<le> length row
              \<and> (\<forall>v\<in>set (take (length columns) row). \<forall>m. v \<noteq> VLob (Inl m)))
        \<and> 0 \<le> max_result_rows cfg \<longrightarrow>
        run_statement cfg db sql params
          = ([Execute sql (params_or_empty params), Fetchall, CursorClose],
             Inr (take (nat (max_result_rows cfg))
                    (map (\<lambda>row. zip columns (map normalized_value row)) rows))))
   \<and> normalized_value (VLob (Inr content)) = VStr content
   \<and> normalized_value (VDateTime iso_text) = VStr iso_text
   \<and> normalized_value VNone = VNone
   \<and> normalized_value (VNum n) = VNum n
   \<and> normalized_value (VStr t) = VStr t"
proof -
  have a: "execute_query cfg db sql params = get_connection cfg db (run_statement cfg db sql params)"
    using assms(1) by (simp add: execute_query_def)
  have f: "Commit \<notin> set (fst (fetch_and_normalize cfg cur))"
    by (auto simp: fetch_and_normalize_def split: option.splits sum.splits)
  have r: "is_query sql \<Longrightarrow>
        run_statement cfg db sql params
          = (Execute sql (params_or_empty params) # fst (fetch_and_normalize cfg cur) @ [CursorClose],
             snd (fetch_and_normalize cfg cur))"
    using assms(2) by (simp add: run_statement_def split: prod.splits)
  have rc: "is_query sql \<Longrightarrow> Commit \<notin> set (fst (run_statement cfg db sql params))"
    using r f by simp
  have w: "\<not> is_query sql \<Longrightarrow>
        run_statement cfg db sql params
          = ([Execute sql (params_or_empty params), Commit, CursorClose],
             case commit db of
               None \<Rightarrow> Inr [[(''affected_rows'', VNum (rowcount cur)), (''status'', VStr ''success'')]]
             | Some m \<Rightarrow> Inl (DriverError m))"
    using assms(2) by (simp add: run_statement_def commit_and_count_def split: option.splits)
  have k: "security_mode cfg \<noteq> FULL_ACCESS \<Longrightarrow>
        (is_query sql \<longleftrightarrow> extract_first_keyword (strip (upper sql)) \<in> set READONLY_OPERATIONS)"
    using assms(1) by (intro is_query_first_keyword permitted_keyword)
  have g: "is_query sql \<and> description cur = Some columns \<and> fetchall cur = Inr rows \<Longrightarrow>
        run_statement cfg db sql params
          = ([Execute sql (params_or_empty params), Fetchall, CursorClose],
             case build_rows columns rows of
               Inl e \<Rightarrow> Inl e
             | Inr results \<Rightarrow>
                 Inr (if int (length results) > max_result_rows cfg
                      then py_slice_to results (max_result_rows cfg)
                      else results))"
    using run_statement_read [OF assms(2)] by blast
  have x: "is_query sql \<and> description cur = Some columns \<and> fetchall cur = Inr rows
        \<and> distinct columns
        \<and> (\<forall>row\<in>set rows. length columns \<le> length row
              \<and> (\<forall>v\<in>set (take (length columns) row). \<forall>m. v \<noteq> VLob (Inl m)))
        \<and> 0 \<le> max_result_rows cfg \<Longrightarrow>
        run_statement cfg db sql params
          = ([Execute sql (params_or_empty params), Fetchall, CursorClose],
             Inr (take (nat (max_result_rows cfg))
                    (map (\<lambda>row. zip columns (map normalized_value row)) rows)))"
  proof -
    assume h: "is_query sql \<and> description cur = Some columns \<and> fetchall cur = Inr rows
        \<and> distinct columns
        \<and> (\<forall>row\<in>set rows. length columns \<le> length row
              \<and> (\<forall>v\<in>set (take (length columns) row). \<forall>m. v \<noteq> VLob (Inl m)))
        \<and> 0 \<le> max_result_rows cfg"
    then have b: "build_rows columns rows
                    = Inr (map (\<lambda>row. zip columns (map normalized_value row)) rows)"
      by (intro build_rows_map) simp_all
    from h have n: "0 \<le> max_result_rows cfg" by simp
    from h g have "run_statement cfg db sql params
          = ([Execute sql (params_or_empty params), Fetchall, CursorClose],
             case build_rows columns rows of
               Inl e \<Rightarrow> Inl e
             | Inr results \<Rightarrow>
                 Inr (if int (length results) > max_result_rows cfg
                      then py_slice_to results (max_result_rows cfg)
                      else results))"
      by blast
    then show ?thesis
      unfolding b using n by (simp add: py_slice_to_def)
  qed
  have v: "normalized_value (VLob (Inr content)) = VStr content
   \<and> normalized_value (VDateTime iso_text) = VStr iso_text
   \<and> normalized_value VNone = VNone
   \<and> normalized_value (VNum n) = VNum n
   \<and> normalized_value (VStr t) = VStr t"
    by (simp add: normalized_value_simps)
  from a is_query_iff [of sql] r rc w k g x v show ?thesis by blast
qed

theorem result_branch_by_prefix_witness:
  "run_statement (example_config LIMITED_WRITE [''*''] 1000) (answering_db five_rows)
      ''update t set x = 1'' None
     = ([Execute ''update t set x = 1'' [], Commit, CursorClose],
        Inr [[(''affected_rows'', VNum 5), (''status'', VStr ''success'')]])
   \<and> Commit \<notin> set (fst (run_statement (example_config LIMITED_WRITE [''*''] 1000)
                             (answering_db five_rows) ''select x from t'' None))
   \<and> run_statement (example_config LIMITED_WRITE [''*''] 1) (answering_db mixed_rows)
        ''select id, doc, ts from t'' None
     = ([Execute ''select id, doc, ts from t'' [], Fetchall, CursorClose],
        Inr [[(''ID'', VNum 1), (''DOC'', VStr ''report''),
              (''TS'', VStr ''2025-01-02T03:04:05'')]])"
proof -
  let ?cfg = "example_config LIMITED_WRITE [''*''] 1000"
  let ?db = "answering_db five_rows"
  have m: "security_mode ?cfg \<noteq> FULL_ACCESS" by (simp add: example_config_def)
  have v1: "validate_sql ''update t set x = 1'' (security_mode ?cfg)" by code_simp
  have v2: "validate_sql ''select x from t'' (security_mode ?cfg)" by code_simp
  have e1: "execute ?db ''update t set x = 1'' (params_or_empty None) = Inr five_rows"
    by (simp add: answering_db_def)
  have e2: "execute ?db ''select x from t'' (params_or_empty None) = Inr five_rows"
    by (simp add: answering_db_def)
  have k1: "extract_first_keyword (strip (upper ''update t set x = 1'')) \<notin> set READONLY_OPERATIONS"
    by code_simp
  have k2: "extract_first_keyword (strip (upper ''select x from t'')) \<in> set READONLY_OPERATIONS"
    by code_simp
  have c: "commit ?db = None" "rowcount five_rows = 5" "params_or_empty None = []"
    by (simp_all add: answering_db_def five_rows_def params_or_empty_def)
  note t1 = result_branch_by_prefix [OF v1 e1]
  note t2 = result_branch_by_prefix [OF v2 e2]
  from t1 m k1 have q1: "\<not> is_query ''update t set x = 1''" by blast
  from t2 m k2 have q2: "is_query ''select x from t''" by blast
  from t1 q1 have "run_statement ?cfg ?db ''update t set x = 1'' None
          = ([Execute ''update t set x = 1'' (params_or_empty None), Commit, CursorClose],
             case commit ?db of
               None \<Rightarrow> Inr [[(''affected_rows'', VNum (rowcount five_rows)), (''status'', VStr ''success'')]]
             | Some m \<Rightarrow> Inl (DriverError m))"
    by blast
  then have r1: "run_statement ?cfg ?db ''update t set x = 1'' None
     = ([Execute ''update t set x = 1'' [], Commit, CursorClose],
        Inr [[(''affected_rows'', VNum 5), (''status'', VStr ''success'')]])"
    by (simp add: c)
  from t2 q2 have r2: "Commit \<notin> set (fst (run_statement ?cfg ?db ''select x from t'' None))"
    by blast
  let ?c1 = "example_config LIMITED_WRITE [''*''] 1"
  let ?dm = "answering_db mixed_rows"
  let ?q = "''select id, doc, ts from t''"
  let ?rows = "[[VNum 1, VLob (Inr ''report''), VDateTime ''2025-01-02T03:04:05''],
                [VNum 2, VLob (Inr ''memo''), VDateTime ''2025-06-07T08:09:10'']]"
  have m3: "security_mode ?c1 \<noteq> FULL_ACCESS" by (simp add: example_config_def)
  have v3: "validate_sql ?q (security_mode ?c1)" by code_simp
  have e3: "execute ?dm ?q (params_or_empty None) = Inr mixed_rows"
    by (simp add: answering_db_def)
  have k3: "extract_first_keyword (strip (upper ?q)) \<in> set READONLY_OPERATIONS" by code_simp
  have d3: "description mixed_rows = Some [''ID'', ''DOC'', ''TS'']"
    by (simp add: mixed_rows_def)
  have f3: "fetchall mixed_rows = Inr ?rows" by (simp add: mixed_rows_def)
  have w3: "distinct [''ID'', ''DOC'', ''TS'']
        \<and> (\<forall>row\<in>set ?rows. length [''ID'', ''DOC'', ''TS''] \<le> length row
              \<and> (\<forall>v\<in>set (take (length [''ID'', ''DOC'', ''TS'']) row). \<forall>m. v \<noteq> VLob (Inl m)))
        \<and> 0 \<le> max_result_rows ?c1"
    by (simp add: example_config_def)
  note t3 = result_branch_by_prefix
              [where columns = "[''ID'', ''DOC'', ''TS'']" and rows = ?rows, OF v3 e3]
  from t3 m3 k3 have q3: "is_query ?q" by blast
  from t3 q3 d3 f3 w3 have "run_statement ?c1 ?dm ?q None
          = ([Execute ?q (params_or_empty None), Fetchall, CursorClose],
             Inr (take (nat (max_result_rows ?c1))
                    (map (\<lambda>row. zip [''ID'', ''DOC'', ''TS''] (map normalized_value row)) ?rows)))"
    by blast
  then have r3: "run_statement ?c1 ?dm ?q None
     = ([Execute ?q [], Fetchall, CursorClose],
        Inr [[(''ID'', VNum 1), (''DOC'', VStr ''report''),
              (''TS'', VStr ''2025-01-02T03:04:05'')]])"
    by (simp add: c example_config_def normalized_value_simps)
  from r1 r2 r3 show ?thesis by blast
qed

subsection \<open>The row cap\<close>

lemma build_rows_all2:
  "build_rows columns rows = Inr results \<Longrightarrow>
     list_all2 (\<lambda>row d. build_row columns row [] = Inr d) rows results"
  by (induction rows arbitrary: results) (auto split: sum.splits)

lemma py_slice_to_nonneg: "0 \<le> n \<Longrightarrow> py_slice_to xs n = take (nat n) xs"
  by (simp add: py_slice_to_def)

lemma cap_nonneg:
  assumes "0 \<le> n"
  shows "(if int (length xs) > n then py_slice_to xs n else xs) = take (nat n) xs"
  using assms by (simp add: py_slice_to_def)

text \<open>
  C8, as stated, fails for a negative \<open>max_result_rows\<close>, which the configuration
  accepts (the field is an \<open>int\<close> with no bound). With the cap \<open>-1\<close> and five rows from
  the driver, \<open>len(results) > -1\<close> holds and \<open>results[:-1]\<close> drops the last row: four
  rows are returned, not \<open>min(5, -1)\<close>.
\<close>

theorem row_cap_counterexample:
  "snd (execute_query (example_config READONLY [''*''] (- 1)) (answering_db five_rows)
          ''SELECT X FROM T'' None)
     = Inr [[(''X'', VNum 1)], [(''X'', VNum 2)], [(''X'', VNum 3)], [(''X'', VNum 4)]]
   \<and> int (length [[(''X'', VNum 1)], [(''X'', VNum 2)], [(''X'', VNum 3)], [(''X'', VNum 4)]])
        \<noteq> min (int (length [[VNum 1], [VNum 2], [VNum 3], [VNum 4], [VNum 5]]))
               (max_result_rows (example_config READONLY [''*''] (- 1)))"
  by code_simp

text \<open>
  C8 (amended). For every read-branch execution in which the driver returns M rows and
  every row is turned into a record, the outcome is a list of records and truncation
  raises nothing; when the configured \<open>max_result_rows\<close> is N with N \<ge> 0, the outcome
  holds exactly min(M, N) records, the records of the first N rows in the driver's
  order. With \<open>max_result_rows = 2\<close> and five rows, two records are returned.
\<close>

theorem row_cap:
  assumes "description cur = Some columns"
    and "fetchall cur = Inr rows"
    and "build_rows columns rows = Inr results"
  shows "(\<exists>rs. snd (fetch_and_normalize cfg cur) = Inr rs)
       \<and> list_all2 (\<lambda>row d. build_row columns row [] = Inr d) rows results
       \<and> (0 \<le> max_result_rows cfg \<longrightarrow>
            snd (fetch_and_normalize cfg cur) = Inr (take (nat (max_result_rows cfg)) results)
            \<and> int (length (take (nat (max_result_rows cfg)) results))
                = min (int (length rows)) (max_result_rows cfg))"
proof -
  have f: "snd (fetch_and_normalize cfg cur)
             = Inr (if int (length results) > max_result_rows cfg
                    then py_slice_to results (max_result_rows cfg) else results)"
    using assms by (simp add: fetch_and_normalize_def)
  have a: "list_all2 (\<lambda>row d. build_row columns row [] = Inr d) rows results"
    using assms(3) by (rule build_rows_all2)
  then have l: "length results = length rows" by (simp add: list_all2_lengthD)
  have c: "0 \<le> max_result_rows cfg \<Longrightarrow>
            snd (fetch_and_normalize cfg cur) = Inr (take (nat (max_result_rows cfg)) results)"
    using f by (simp only: cap_nonneg)
  have n: "0 \<le> max_result_rows cfg \<Longrightarrow>
            int (length (take (nat (max_result_rows cfg)) results))
                = min (int (length rows)) (max_result_rows cfg)"
    using l by simp
  from f a c n show ?thesis by blast
qed

theorem row_cap_witness:
  "snd (fetch_and_normalize (example_config READONLY [''*''] 2) five_rows)
     = Inr [[(''X'', VNum 1)], [(''X'', VNum 2)]]"
proof -
  let ?rs = "[[(''X'', VNum 1)], [(''X'', VNum 2)], [(''X'', VNum 3)], [(''X'', VNum 4)], [(''X'', VNum 5)]]"
  have d: "description five_rows = Some [''X'']" by (simp add: five_rows_def)
  have f: "fetchall five_rows = Inr [[VNum 1], [VNum 2], [VNum 3], [VNum 4], [VNum 5]]"
    by (simp add: five_rows_def)
  have b: "build_rows [''X''] [[VNum 1], [VNum 2], [VNum 3], [VNum 4], [VNum 5]] = Inr ?rs"
    by (simp add: normalize_value_def)
  have m: "0 \<le> max_result_rows (example_config READONLY [''*''] 2)"
          "nat (max_result_rows (example_config READONLY [''*''] 2)) = 2"
    by (simp_all add: example_config_def)
  from row_cap [OF d f b, of "example_config READONLY [''*''] 2"] m
  have "snd (fetch_and_normalize (example_config READONLY [''*''] 2) five_rows) = Inr (take 2 ?rs)"
    by simp
  then show ?thesis by simp
qed

section \<open>The schema check\<close>

lemma probe_permitted: "validate_sql test_sql READONLY \<and> validate_sql test_sql mode"
proof -
  have r: "validate_sql test_sql READONLY" by code_simp
  have l: "validate_sql test_sql LIMITED_WRITE" by code_simp
  have f: "validate_sql test_sql FULL_ACCESS" by code_simp
  from r l f show ?thesis by (cases mode) simp_all
qed

lemma probe_is_query: "is_query test_sql"
  by code_simp

lemma upper_in_map_upper:
  "upper schema \<in> set (map upper schemas) \<longleftrightarrow> (\<exists>a\<in>set schemas. upper schema = upper a)"
  by auto

text \<open>
  C6. When the configured schema list holds \<open>*\<close>, \<open>_is_schema_allowed\<close> answers
  \<open>True\<close> for every name, without any driver call, also when \<open>auto\<close> is in the list as
  well. When the list holds neither \<open>*\<close> nor \<open>auto\<close>, it answers, again without any
  driver call, whether the upper-cased name equals the upper-cased form of one of the
  configured names: with the list \<open>HR\<close>, \<open>hr\<close> is allowed and \<open>FINANCE\<close> is not.
\<close>

theorem schema_wildcard_and_allow_list:
  "(''*'' \<in> set (allowed_schemas cfg) \<longrightarrow> is_schema_allowed cfg db schema = ([], True))
   \<and> (''*'' \<notin> set (allowed_schemas cfg) \<and> ''auto'' \<notin> set (allowed_schemas cfg) \<longrightarrow>
        is_schema_allowed cfg db schema
          = ([], \<exists>a\<in>set (allowed_schemas cfg). upper schema = upper a))
   \<and> snd (is_schema_allowed (example_config mode [''HR''] cap) db ''hr'')
   \<and> \<not> snd (is_schema_allowed (example_config mode [''HR''] cap) db ''FINANCE'')"
proof -
  have w: "''*'' \<in> set (allowed_schemas cfg) \<Longrightarrow> is_schema_allowed cfg db schema = ([], True)"
    by (simp add: is_schema_allowed_def is_all_schemas_allowed_def)
  have l: "\<And>c s. ''*'' \<notin> set (allowed_schemas c) \<and> ''auto'' \<notin> set (allowed_schemas c) \<Longrightarrow>
        is_schema_allowed c db s = ([], \<exists>a\<in>set (allowed_schemas c). upper s = upper a)"
    by (simp only: is_schema_allowed_def is_all_schemas_allowed_def
          is_auto_discover_schemas_def upper_in_map_upper if_False)
  have hr: "allowed_schemas (example_config mode [''HR''] cap) = [''HR'']"
    by (simp add: example_config_def)
  have n: "''*'' \<notin> set [''HR''] \<and> ''auto'' \<notin> set [''HR'']" by simp
  have u1: "upper ''hr'' = upper ''HR''" by code_simp
  have u2: "upper ''FINANCE'' \<noteq> upper ''HR''" by code_simp
  have e1: "snd (is_schema_allowed (example_config mode [''HR''] cap) db ''hr'')"
    using l [of "example_config mode [''HR''] cap" "''hr''"] n u1 by (simp add: hr)
  have e2: "\<not> snd (is_schema_allowed (example_config mode [''HR''] cap) db ''FINANCE'')"
    using l [of "example_config mode [''HR''] cap" "''FINANCE''"] n u2 by (simp add: hr)
  from w l [of cfg schema] e1 e2 show ?thesis by blast
qed

theorem schema_wildcard_and_allow_list_witness:
  "is_schema_allowed (example_config LIMITED_WRITE [''auto'', ''*''] 10) unreachable_db ''finance''
     = ([], True)
   \<and> is_schema_allowed (example_config READONLY [''HR'', ''SCOTT''] 10) unreachable_db ''scott''
     = ([], True)"
proof -
  let ?c1 = "example_config LIMITED_WRITE [''auto'', ''*''] 10"
  let ?c2 = "example_config READONLY [''HR'', ''SCOTT''] 10"
  have a1: "''*'' \<in> set (allowed_schemas ?c1)" by (simp add: example_config_def)
  have a2: "''*'' \<notin> set (allowed_schemas ?c2) \<and> ''auto'' \<notin> set (allowed_schemas ?c2)"
    by (simp add: example_config_def)
  have u: "upper ''scott'' = upper ''SCOTT''" by code_simp
  have m: "\<exists>a\<in>set (allowed_schemas ?c2). upper ''scott'' = upper a"
    using u by (simp add: example_config_def)
  from schema_wildcard_and_allow_list [of ?c1 unreachable_db "''finance''"] a1
  have r1: "is_schema_allowed ?c1 unreachable_db ''finance'' = ([], True)" by blast
  from schema_wildcard_and_allow_list [of ?c2 unreachable_db "''scott''"] a2
  have "is_schema_allowed ?c2 unreachable_db ''scott''
          = ([], \<exists>a\<in>set (allowed_schemas ?c2). upper ''scott'' = upper a)" by blast
  with m have r2: "is_schema_allowed ?c2 unreachable_db ''scott'' = ([], True)" by simp
  from r1 r2 show ?thesis ..
qed

text \<open>
  C7. When the list holds \<open>auto\<close> and not \<open>*\<close>, \<open>_is_schema_allowed\<close> runs the catalog
  probe through \<open>execute_safe_query\<close> with the upper-cased name as its parameter. The
  probe passes the read-only validation and the validation of every configured mode, so
  it reaches the pipeline and its read branch. The answer is \<open>True\<close> if and only if the
  probe returns at least one record; whatever exception the probe raises, the answer is
  \<open>False\<close>, and no exception leaves the function.
\<close>

theorem schema_auto_discover:
  assumes "''auto'' \<in> set (allowed_schemas cfg)" and "''*'' \<notin> set (allowed_schemas cfg)"
  shows
  "is_schema_allowed cfg db schema
     = (fst (execute_safe_query cfg db test_sql (Some [VStr (upper schema)])),
        case snd (execute_safe_query cfg db test_sql (Some [VStr (upper schema)])) of
          Inr result \<Rightarrow> result \<noteq> []
        | Inl e \<Rightarrow> False)
   \<and> execute_safe_query cfg db test_sql (Some [VStr (upper schema)])
       = get_connection cfg db (run_statement cfg db test_sql (Some [VStr (upper schema)]))
   \<and> is_query test_sql
   \<and> (connect db = None \<and> (\<forall>m. execute db alter_session [] \<noteq> Inl m) \<longrightarrow>
        Execute test_sql [VStr (upper schema)] \<in> set (fst (is_schema_allowed cfg db schema)))"
proof -
  let ?probe = "execute_safe_query cfg db test_sql (Some [VStr (upper schema)])"
  have a: "is_schema_allowed cfg db schema
     = (fst ?probe, case snd ?probe of Inr result \<Rightarrow> result \<noteq> [] | Inl e \<Rightarrow> False)"
    using assms
    by (cases ?probe)
       (simp add: is_schema_allowed_def is_all_schemas_allowed_def is_auto_discover_schemas_def
             split: sum.splits)
  have b: "?probe = get_connection cfg db (run_statement cfg db test_sql (Some [VStr (upper schema)]))"
    using probe_permitted [of "security_mode cfg"]
    by (simp add: execute_safe_query_def execute_query_def)
  have p: "params_or_empty (Some [VStr (upper schema)]) = [VStr (upper schema)]"
    by (simp add: params_or_empty_def)
  have c: "connect db = None \<and> (\<forall>m. execute db alter_session [] \<noteq> Inl m) \<Longrightarrow>
        Execute test_sql [VStr (upper schema)] \<in> set (fst (is_schema_allowed cfg db schema))"
    using execute_in_trace [of db test_sql "Some [VStr (upper schema)]" cfg] a b p by simp
  from a b probe_is_query c show ?thesis by blast
qed

theorem schema_auto_discover_witness:
  "snd (is_schema_allowed (example_config LIMITED_WRITE [''auto''] 10) (answering_db five_rows) ''hr'')
   \<and> Execute test_sql [VStr ''HR'']
        \<in> set (fst (is_schema_allowed (example_config LIMITED_WRITE [''auto''] 10)
                      (answering_db five_rows) ''hr''))
   \<and> \<not> snd (is_schema_allowed (example_config LIMITED_WRITE [''auto''] 10) (answering_db no_rows) ''hr'')
   \<and> \<not> snd (is_schema_allowed (example_config LIMITED_WRITE [''auto''] 10) unreachable_db ''hr'')"
proof -
  let ?cfg = "example_config LIMITED_WRITE [''auto''] 10"
  have h: "''auto'' \<in> set (allowed_schemas ?cfg)" "''*'' \<notin> set (allowed_schemas ?cfg)"
    by (simp_all add: example_config_def)
  have u: "upper ''hr'' = ''HR''" by code_simp
  have p1: "snd (execute_safe_query ?cfg (answering_db five_rows) test_sql (Some [VStr (upper ''hr'')]))
              = Inr [[(''X'', VNum 1)], [(''X'', VNum 2)], [(''X'', VNum 3)], [(''X'', VNum 4)],
                     [(''X'', VNum 5)]]"
    by code_simp
  have p2: "snd (execute_safe_query ?cfg (answering_db no_rows) test_sql (Some [VStr (upper ''hr'')]))
              = Inr []"
    by code_simp
  have p3: "snd (execute_safe_query ?cfg unreachable_db test_sql (Some [VStr (upper ''hr'')]))
              = Inl (DriverError ''ORA-12541'')"
    by code_simp
  have c: "connect (answering_db five_rows) = None
           \<and> (\<forall>m. execute (answering_db five_rows) alter_session [] \<noteq> Inl m)"
    by (simp add: answering_db_def)
  note t1 = schema_auto_discover [OF h, of "answering_db five_rows" "''hr''"]
  note t2 = schema_auto_discover [OF h, of "answering_db no_rows" "''hr''"]
  note t3 = schema_auto_discover [OF h, of unreachable_db "''hr''"]
  from t1 have "snd (is_schema_allowed ?cfg (answering_db five_rows) ''hr'')
        = (case snd (execute_safe_query ?cfg (answering_db five_rows) test_sql (Some [VStr (upper ''hr'')])) of
             Inr result \<Rightarrow> result \<noteq> [] | Inl e \<Rightarrow> False)"
    by simp
  then have r1: "snd (is_schema_allowed ?cfg (answering_db five_rows) ''hr'')"
    by (simp add: p1)
  from t1 c have "Execute test_sql [VStr (upper ''hr'')]
        \<in> set (fst (is_schema_allowed ?cfg (answering_db five_rows) ''hr''))"
    by blast
  then have r2: "Execute test_sql [VStr ''HR'']
        \<in> set (fst (is_schema_allowed ?cfg (answering_db five_rows) ''hr''))"
    by (simp only: u)
  from t2 have "snd (is_schema_allowed ?cfg (answering_db no_rows) ''hr'')
        = (case snd (execute_safe_query ?cfg (answering_db no_rows) test_sql (Some [VStr (upper ''hr'')])) of
             Inr result \<Rightarrow> result \<noteq> [] | Inl e \<Rightarrow> False)"
    by simp
  then have r3: "\<not> snd (is_schema_allowed ?cfg (answering_db no_rows) ''hr'')"
    by (simp add: p2)
  from t3 have "snd (is_schema_allowed ?cfg unreachable_db ''hr'')
        = (case snd (execute_safe_query ?cfg unreachable_db test_sql (Some [VStr (upper ''hr'')])) of
             Inr result \<Rightarrow> result \<noteq> [] | Inl e \<Rightarrow> False)"
    by simp
  then have r4: "\<not> snd (is_schema_allowed ?cfg unreachable_db ''hr'')"
    by (simp add: p3)
  from r1 r2 r3 r4 show ?thesis by blast
qed

end
